theory Spec2Isabelle
  imports Main "HOL-Library.Word"
begin

section \<open>The booking backend\<close>

text \<open>
  The repository holds two Express servers. The file \<^verbatim>\<open>src/unnamed/part_000\<close> is the
  server with the admin surface (overrides, tokens, the weekday rule); \<^verbatim>\<open>src/server.js\<close>
  is the basic server (a fixed four-slot day, bookings held as slot labels). Each is
  embedded below, handler by handler. The definitions of the first keep the source's
  names; those of the second carry the prefix \<open>server_\<close>.

  A handler becomes a function from the process state and the request's fields to an
  outcome and the next state. Requests are served one after the other. A request is
  given by the values that the handler reads from it: strings, as the data model has
  them, and \<open>None\<close> for \<^verbatim>\<open>undefined\<close>. The \<^verbatim>\<open>slots\<close> object of an override patch is
  the list of its members, each a slot key with a boolean.

  The state includes the members that override patches write into \<^verbatim>\<open>Object.prototype\<close>
  and into built-in functions, and the lookups \<^verbatim>\<open>bookings[date]\<close>,
  \<^verbatim>\<open>availabilityOverrides[date]\<close> and \<^verbatim>\<open>dayOverrides[time]\<close> of the handlers read them.
  What such members do elsewhere is left out: inside Express and Node, and to a field
  that a request does not carry, which then reads as the written boolean instead of
  \<^verbatim>\<open>undefined\<close>.
\<close>

subsection \<open>JavaScript values the handlers rely on\<close>

text \<open>\<^verbatim>\<open>!x\<close> for an optional string: \<^verbatim>\<open>undefined\<close> and the empty string are falsy.\<close>

definition falsy :: "string option \<Rightarrow> bool" where
  "falsy x = (case x of None \<Rightarrow> True | Some v \<Rightarrow> v = [])"

text \<open>
  \<^verbatim>\<open>bookings\<close> and \<^verbatim>\<open>availabilityOverrides\<close> are object literals, so a lookup
  \<^verbatim>\<open>obj[key]\<close> that finds no own property continues in \<^verbatim>\<open>Object.prototype\<close>. These are
  the property names the runtime puts there; each holds a function, or (for
  \<^verbatim>\<open>__proto__\<close>) the prototype object itself, so each built-in value is truthy and is
  neither an array nor a boolean.
\<close>

definition object_prototype_keys :: "string list" where
  "object_prototype_keys =
     [''constructor'', ''__defineGetter__'', ''__defineSetter__'', ''hasOwnProperty'',
      ''__lookupGetter__'', ''__lookupSetter__'', ''isPrototypeOf'',
      ''propertyIsEnumerable'', ''toString'', ''valueOf'', ''__proto__'',
      ''toLocaleString'']"

text \<open>
  An override patch can write boolean members into \<^verbatim>\<open>Object.prototype\<close> (see
  \<open>setOverrides\<close>). The map \<open>proto\<close> holds the members written so far; a written member
  replaces the built-in value of the same name. The value of \<^verbatim>\<open>obj[key]\<close> is then an own
  property, a written boolean, a built-in value, or \<^verbatim>\<open>undefined\<close>.
\<close>

datatype 'a property = Own 'a | Written bool | Inherited | Undefined

definition get_prop :: "(string \<rightharpoonup> bool) \<Rightarrow> (string \<rightharpoonup> 'a) \<Rightarrow> string \<Rightarrow> 'a property" where
  "get_prop proto obj key =
     (case obj key of
        Some v \<Rightarrow> Own v
      | None \<Rightarrow>
          (case proto key of
             Some b \<Rightarrow> Written b
           | None \<Rightarrow> if key \<in> set object_prototype_keys then Inherited else Undefined))"

text \<open>Truthiness of such a value: objects, arrays and functions are truthy.\<close>

definition truthy :: "'a property \<Rightarrow> bool" where
  "truthy v = (case v of Own x \<Rightarrow> True | Written b \<Rightarrow> b | Inherited \<Rightarrow> True | Undefined \<Rightarrow> False)"

text \<open>
  The own property names of \<^verbatim>\<open>Boolean.prototype\<close>, which come before those of
  \<^verbatim>\<open>Object.prototype\<close> when a member of a boolean is read.
\<close>

definition boolean_prototype_keys :: "string list" where
  "boolean_prototype_keys = [''constructor'', ''toString'', ''valueOf'']"

subsection \<open>Dates\<close>

definition is_digit :: "char \<Rightarrow> bool" where
  "is_digit c = (48 \<le> (of_char c :: nat) \<and> (of_char c :: nat) \<le> 57)"

definition digit_val :: "char \<Rightarrow> int" where
  "digit_val c = int (of_char c) - 48"

text \<open>The test \<^verbatim>\<open>/^\d{4}-\d{2}-\d{2}$/.test(date)\<close>.\<close>

fun date_pattern :: "string \<Rightarrow> bool" where
  "date_pattern [y1, y2, y3, y4, s1, m1, m2, s2, d1, d2] =
     (is_digit y1 \<and> is_digit y2 \<and> is_digit y3 \<and> is_digit y4 \<and> s1 = CHR ''-'' \<and>
      is_digit m1 \<and> is_digit m2 \<and> s2 = CHR ''-'' \<and> is_digit d1 \<and> is_digit d2)"
| "date_pattern _ = False"

text \<open>
  A \<^verbatim>\<open>Date\<close> object is its time value: milliseconds since 1970-01-01T00:00:00Z, or
  \<open>None\<close> for the invalid date (time value NaN). The day arithmetic is ECMAScript's
  (\<^verbatim>\<open>DayFromYear\<close>, \<^verbatim>\<open>MakeDay\<close>, \<^verbatim>\<open>WeekDay\<close>), with floor division.
\<close>

type_synonym js_date = "int option"

definition msPerDay :: int where
  "msPerDay = 86400000"

definition DayFromYear :: "int \<Rightarrow> int" where
  "DayFromYear y =
     365 * (y - 1970) + (y - 1969) div 4 - (y - 1901) div 100 + (y - 1601) div 400"

definition InLeapYear :: "int \<Rightarrow> bool" where
  "InLeapYear y = (y mod 4 = 0 \<and> (y mod 100 \<noteq> 0 \<or> y mod 400 = 0))"

text \<open>Days of the year before the first day of month \<open>m\<close> (January is 0).\<close>

definition DaysBeforeMonth :: "bool \<Rightarrow> nat \<Rightarrow> int" where
  "DaysBeforeMonth leap m =
     (if leap then [0, 31, 60, 91, 121, 152, 182, 213, 244, 274, 305, 335] ! m
      else [0, 31, 59, 90, 120, 151, 181, 212, 243, 273, 304, 334] ! m)"

definition MakeDay :: "int \<Rightarrow> nat \<Rightarrow> int \<Rightarrow> int" where
  "MakeDay year month dt = DayFromYear year + DaysBeforeMonth (InLeapYear year) month + dt - 1"

text \<open>
  \<^verbatim>\<open>new Date(date + 'T00:00:00.000Z')\<close> for a \<open>date\<close> that passed \<open>date_pattern\<close>, as
  Node's parser reads it: a month outside 01..12 or a day outside 01..31 gives the
  invalid date; a day beyond the end of its month (02-30) runs on into the next month.
  The handler passes no other string; the model gives those the invalid date.
\<close>

fun new_Date_utc :: "string \<Rightarrow> js_date" where
  "new_Date_utc [y1, y2, y3, y4, s1, m1, m2, s2, d1, d2] =
     (let year = 1000 * digit_val y1 + 100 * digit_val y2 + 10 * digit_val y3 + digit_val y4;
          month = 10 * digit_val m1 + digit_val m2;
          day = 10 * digit_val d1 + digit_val d2
      in if date_pattern [y1, y2, y3, y4, s1, m1, m2, s2, d1, d2] \<and>
            1 \<le> month \<and> month \<le> 12 \<and> 1 \<le> day \<and> day \<le> 31
         then Some (MakeDay year (nat (month - 1)) day * msPerDay)
         else None)"
| "new_Date_utc _ = None"

definition getUTCDay :: "js_date \<Rightarrow> int option" where
  "getUTCDay dateObj = map_option (\<lambda>t. (t div msPerDay + 4) mod 7) dateObj"

subsection \<open>The server with the admin surface\<close>

record booking =
  time :: string
  name :: string
  email :: string
  address :: string
  notes' :: "string option"

text \<open>
  Besides the three stores of the source, the state holds what override patches have
  written into the runtime's built-in objects (see \<open>setOverrides\<close>):
  \<open>Object_prototype\<close> holds the boolean members written into \<^verbatim>\<open>Object.prototype\<close>, and
  \<open>builtin_functions f\<close> those written into the function that \<^verbatim>\<open>Object.prototype\<close> holds
  under the name \<open>f\<close> (for \<^verbatim>\<open>constructor\<close> that function is \<^verbatim>\<open>Object\<close>). Both are empty
  when the process starts.
\<close>

record state =
  bookings :: "string \<rightharpoonup> booking list"
  availabilityOverrides :: "string \<rightharpoonup> (string \<rightharpoonup> bool)"
  validTokens :: "string set"
  Object_prototype :: "string \<rightharpoonup> bool"
  builtin_functions :: "string \<Rightarrow> (string \<rightharpoonup> bool)"

definition init :: state where
  "init = \<lparr>bookings = Map.empty, availabilityOverrides = Map.empty, validTokens = {},
            Object_prototype = Map.empty, builtin_functions = (\<lambda>f. Map.empty)\<rparr>"

datatype payload =
    Message string
  | AvailableTimes string "string list"
  | Success string
  | Token string
  | Confirmed string "string option list"
  | Bookings "string \<rightharpoonup> booking list"
  | Overrides "string \<rightharpoonup> (string \<rightharpoonup> bool)"

text \<open>
  A handler answers with a status and a body, or throws; Express answers a thrown error
  with status 500.
\<close>

datatype js_error = TypeError

datatype outcome = Reply nat payload | Threw js_error

definition getStandardAvailability :: "js_date \<Rightarrow> string list" where
  "getStandardAvailability dateObj =
     (let dayOfWeek = getUTCDay dateObj
      in if dayOfWeek = Some 0 \<or> dayOfWeek = Some 6 then []
         else [''08:00 AM - 09:00 AM'', ''09:00 AM - 10:00 AM'', ''10:00 AM - 11:00 AM''])"

text \<open>
  \<^verbatim>\<open>dayOverrides[time] === false\<close>, for a truthy value of
  \<^verbatim>\<open>availabilityOverrides[date]\<close>. A member that an override object does not hold itself
  is read from \<^verbatim>\<open>Object.prototype\<close>, where only a written member can be \<^verbatim>\<open>false\<close>. A
  member of the boolean \<^verbatim>\<open>true\<close> is read from \<^verbatim>\<open>Boolean.prototype\<close> first. The members
  of a built-in value are not modelled for this read and taken as not \<^verbatim>\<open>false\<close>: the
  handlers meet that case in no state that a run reaches (the availability query has
  checked the date's form by then, and the booking handler has thrown on
  \<^verbatim>\<open>bookings[date]\<close>).
\<close>

definition isManuallyDisabled :: "state \<Rightarrow> (string \<rightharpoonup> bool) property \<Rightarrow> string \<Rightarrow> bool" where
  "isManuallyDisabled s dayOverrides t =
     (case dayOverrides of
        Own ov \<Rightarrow> (case ov t of Some b \<Rightarrow> \<not> b | None \<Rightarrow> Object_prototype s t = Some False)
      | Written b \<Rightarrow> t \<notin> set boolean_prototype_keys \<and> Object_prototype s t = Some False
      | _ \<Rightarrow> False)"

text \<open>
  \<^verbatim>\<open>GET /api/availability\<close>. \<^verbatim>\<open>bookings[date] || []\<close> is the own list, or the empty
  list for a falsy value; a built-in value and the boolean \<^verbatim>\<open>true\<close> are truthy and have
  no \<^verbatim>\<open>map\<close>. \<^verbatim>\<open>availabilityOverrides[date] || {}\<close> is a fresh empty object for a falsy
  value.
\<close>

definition availability :: "state \<Rightarrow> string option \<Rightarrow> outcome \<times> state" where
  "availability s date_param =
     (case date_param of
        None \<Rightarrow> (Reply 400 (Message ''A valid date in YYYY-MM-DD format is required.''), s)
      | Some date \<Rightarrow>
          if date = [] \<or> \<not> date_pattern date
          then (Reply 400 (Message ''A valid date in YYYY-MM-DD format is required.''), s)
          else
            let dateObj = new_Date_utc date;
                allTimes = getStandardAvailability dateObj
            in (case get_prop (Object_prototype s) (bookings s) date of
                  Inherited \<Rightarrow> (Threw TypeError, s)
                | Written True \<Rightarrow> (Threw TypeError, s)
                | found \<Rightarrow>
                    let bookedTimesForDate =
                          map time (case found of Own bs \<Rightarrow> bs | _ \<Rightarrow> []);
                        overrides = get_prop (Object_prototype s) (availabilityOverrides s) date;
                        dayOverrides = (if truthy overrides then overrides else Own Map.empty);
                        availableTimes =
                          filter (\<lambda>t. \<not> isManuallyDisabled s dayOverrides t \<and>
                                       t \<notin> set bookedTimesForDate) allTimes
                    in (Reply 200 (AvailableTimes date availableTimes), s)))"

text \<open>
  The body of \<^verbatim>\<open>POST /api/book\<close>, field by field. The \<open>req_\<close> prefix keeps the
  fields apart from those of the stored record.
\<close>

record booking_request =
  req_date :: "string option"
  req_time :: "string option"
  req_name :: "string option"
  req_email :: "string option"
  req_address :: "string option"
  req_notes :: "string option"

text \<open>
  \<^verbatim>\<open>POST /api/book\<close>. After the first test every required field is a non-empty string.
  A built-in value or the boolean \<^verbatim>\<open>true\<close> for \<^verbatim>\<open>bookings[date]\<close> is truthy and has no
  \<^verbatim>\<open>some\<close>, so the conflict test throws. \<^verbatim>\<open>availabilityOverrides[date] && ...[time] === false\<close>
  reads the member only of a truthy value. The \<^verbatim>\<open>push\<close> follows the creation of a
  missing list.
\<close>

definition book :: "state \<Rightarrow> booking_request \<Rightarrow> outcome \<times> state" where
  "book s req =
     (if falsy (req_date req) \<or> falsy (req_time req) \<or> falsy (req_name req) \<or>
         falsy (req_email req) \<or> falsy (req_address req)
      then (Reply 400 (Message ''Missing required booking information.''), s)
      else
        let date = the (req_date req); t = the (req_time req)
        in (case get_prop (Object_prototype s) (bookings s) date of
              Inherited \<Rightarrow> (Threw TypeError, s)
            | Written True \<Rightarrow> (Threw TypeError, s)
            | found \<Rightarrow>
                let existing = (case found of Own bs \<Rightarrow> bs | _ \<Rightarrow> []);
                    overrides = get_prop (Object_prototype s) (availabilityOverrides s) date
                in if list_ex (\<lambda>b. time b = t) existing \<or>
                      (truthy overrides \<and> isManuallyDisabled s overrides t)
                   then (Reply 409 (Message ''This time slot is no longer available.''), s)
                   else
                     let newBooking =
                           \<lparr>time = t, name = the (req_name req), email = the (req_email req),
                            address = the (req_address req), notes' = req_notes req\<rparr>
                     in (Reply 201 (Success ''Booking confirmed!''),
                         s\<lparr>bookings := (bookings s)(date \<mapsto> existing @ [newBooking])\<rparr>)))"

subsubsection \<open>Tokens\<close>

text \<open>\<^verbatim>\<open>process.env.ADMIN_PASSCODE || 'secret123'\<close>, from the environment's value.\<close>

definition ADMIN_PASSCODE :: "string option \<Rightarrow> string" where
  "ADMIN_PASSCODE env = (if falsy env then ''secret123'' else the env)"

text \<open>\<^verbatim>\<open>buf.toString('hex')\<close>: two lower-case hexadecimal digits for each byte.\<close>

definition hex_digit :: "nat \<Rightarrow> char" where
  "hex_digit n = ''0123456789abcdef'' ! n"

definition toString_hex :: "8 word list \<Rightarrow> string" where
  "toString_hex buf = concat (map (\<lambda>b. [hex_digit (unat b div 16), hex_digit (unat b mod 16)]) buf)"

text \<open>
  \<^verbatim>\<open>POST /api/admin/login\<close>. The bytes that \<^verbatim>\<open>crypto.randomBytes(16)\<close> draws are an
  input of the model.
\<close>

definition login :: "string option \<Rightarrow> state \<Rightarrow> string option \<Rightarrow> 8 word list \<Rightarrow> outcome \<times> state" where
  "login env s passcode randomBytes =
     (if passcode = Some (ADMIN_PASSCODE env)
      then let token = toString_hex randomBytes
           in (Reply 200 (Token token), s\<lparr>validTokens := insert token (validTokens s)\<rparr>)
      else (Reply 401 (Message ''Invalid passcode.''), s))"

definition startsWith :: "string \<Rightarrow> string \<Rightarrow> bool" where
  "startsWith str p = (take (length p) str = p)"

text \<open>\<^verbatim>\<open>str.split(sep)\<close> for a one-character separator.\<close>

fun split :: "string \<Rightarrow> char \<Rightarrow> string list" where
  "split [] sep = [[]]"
| "split (c # cs) sep =
     (if c = sep then [] # split cs sep
      else (case split cs sep of [] \<Rightarrow> [[c]] | w # ws \<Rightarrow> (c # w) # ws))"

text \<open>
  The middleware: \<open>Some\<close> of the refusal it sends, or \<open>None\<close> when it calls
  \<^verbatim>\<open>next()\<close>. \<^verbatim>\<open>split(' ')[1]\<close> is \<^verbatim>\<open>undefined\<close> when there is no second part, and
  the set holds strings only.
\<close>

definition authMiddleware :: "state \<Rightarrow> string option \<Rightarrow> outcome option" where
  "authMiddleware s authHeader =
     (if falsy authHeader \<or> \<not> startsWith (the authHeader) ''Bearer ''
      then Some (Reply 401 (Message ''Authorization token is required.''))
      else
        let token = (case split (the authHeader) CHR '' '' of _ # tok # _ \<Rightarrow> Some tok | _ \<Rightarrow> None)
        in if \<not> (case token of Some tok \<Rightarrow> tok \<in> validTokens s | None \<Rightarrow> False)
           then Some (Reply 403 (Message ''Invalid or expired token.''))
           else None)"

subsubsection \<open>Admin routes\<close>

definition admin_get_bookings :: "state \<Rightarrow> string option \<Rightarrow> outcome \<times> state" where
  "admin_get_bookings s authHeader =
     (case authMiddleware s authHeader of
        Some refusal \<Rightarrow> (refusal, s)
      | None \<Rightarrow> (Reply 200 (Bookings (bookings s)), s))"

definition admin_get_availability :: "state \<Rightarrow> string option \<Rightarrow> outcome \<times> state" where
  "admin_get_availability s authHeader =
     (case authMiddleware s authHeader of
        Some refusal \<Rightarrow> (refusal, s)
      | None \<Rightarrow> (Reply 200 (Overrides (availabilityOverrides s)), s))"

text \<open>
  \<^verbatim>\<open>Object.assign(target, slots)\<close> for the members of the parsed \<^verbatim>\<open>slots\<close> object, each
  a boolean, written one after the other with an ordinary assignment. The target is an
  override object or \<^verbatim>\<open>Object.prototype\<close>, given by the members it holds. The
  assignment \<^verbatim>\<open>target['__proto__'] = b\<close> runs the prototype setter, which ignores a
  boolean, so that member leaves no entry.
\<close>

fun Object_assign :: "(string \<rightharpoonup> bool) \<Rightarrow> (string \<times> bool) list \<Rightarrow> (string \<rightharpoonup> bool)" where
  "Object_assign target [] = target"
| "Object_assign target ((k, v) # rest) =
     Object_assign (if k = ''__proto__'' then target else target(k \<mapsto> v)) rest"

text \<open>
  The same for a built-in function as the target. A function's \<^verbatim>\<open>length\<close> and
  \<^verbatim>\<open>name\<close> are read-only, as is the \<^verbatim>\<open>prototype\<close> of \<^verbatim>\<open>Object\<close>, and the setters of
  \<^verbatim>\<open>caller\<close> and \<^verbatim>\<open>arguments\<close> throw: on such a key \<^verbatim>\<open>Object.assign\<close> throws a
  TypeError, and the members written before it stay. The result is the members the
  function holds afterwards, and whether the call threw.
\<close>

definition readonly_keys :: "string \<Rightarrow> string list" where
  "readonly_keys f =
     [''length'', ''name'', ''caller'', ''arguments''] @
     (if f = ''constructor'' then [''prototype''] else [])"

fun assign_to_function ::
  "string list \<Rightarrow> (string \<rightharpoonup> bool) \<Rightarrow> (string \<times> bool) list \<Rightarrow> (string \<rightharpoonup> bool) \<times> bool" where
  "assign_to_function ro members [] = (members, False)"
| "assign_to_function ro members ((k, v) # rest) =
     (if k \<in> set ro then (members, True)
      else assign_to_function ro (if k = ''__proto__'' then members else members(k \<mapsto> v)) rest)"

text \<open>
  The handler of \<^verbatim>\<open>POST /api/admin/availability\<close>, behind the middleware. An own entry
  is created only when \<^verbatim>\<open>availabilityOverrides[date]\<close> is falsy. The target of
  \<^verbatim>\<open>Object.assign\<close> is whatever \<^verbatim>\<open>availabilityOverrides[date]\<close> then is:
  \<^item> the own override object of the date;
  \<^item> for the date \<^verbatim>\<open>__proto__\<close>, \<^verbatim>\<open>Object.prototype\<close> itself, so the patch becomes
    visible in every object that has no own member of that name;
  \<^item> for another built-in name, the function held under it;
  \<^item> the boolean \<^verbatim>\<open>true\<close>, when an earlier patch wrote it into \<^verbatim>\<open>Object.prototype\<close>
    under the date: the members go to a temporary wrapper object and are lost.
  When an earlier patch for the date \<^verbatim>\<open>constructor\<close> has overwritten \<^verbatim>\<open>Object.assign\<close>
  with a boolean, the call throws a TypeError, after the creation of the own entry.
\<close>

definition setOverrides ::
  "state \<Rightarrow> string option \<Rightarrow> (string \<times> bool) list option \<Rightarrow> outcome \<times> state" where
  "setOverrides s date slots =
     (if falsy date \<or> slots = None
      then (Reply 400 (Message ''Date and slots object are required.''), s)
      else
        let d = the date; patch = the slots;
            found = get_prop (Object_prototype s) (availabilityOverrides s) d;
            s1 = (if truthy found then s
                  else s\<lparr>availabilityOverrides := (availabilityOverrides s)(d \<mapsto> Map.empty)\<rparr>);
            updated = Reply 200 (Success (''Availability for '' @ d @ '' updated.''))
        in if builtin_functions s ''constructor'' ''assign'' \<noteq> None then (Threw TypeError, s1)
           else
             (case found of
                Inherited \<Rightarrow>
                  if d = ''__proto__''
                  then (updated, s\<lparr>Object_prototype := Object_assign (Object_prototype s) patch\<rparr>)
                  else
                    let written = assign_to_function (readonly_keys d) (builtin_functions s d) patch;
                        s2 = s\<lparr>builtin_functions := (builtin_functions s)(d := fst written)\<rparr>
                    in (if snd written then Threw TypeError else updated, s2)
              | Written True \<Rightarrow> (updated, s)
              | found \<Rightarrow>
                  let target = (case found of Own ov \<Rightarrow> ov | _ \<Rightarrow> Map.empty)
                  in (updated,
                      s\<lparr>availabilityOverrides :=
                          (availabilityOverrides s)(d \<mapsto> Object_assign target patch)\<rparr>)))"

definition admin_post_availability ::
  "state \<Rightarrow> string option \<Rightarrow> string option \<Rightarrow> (string \<times> bool) list option
     \<Rightarrow> outcome \<times> state" where
  "admin_post_availability s authHeader date slots =
     (case authMiddleware s authHeader of
        Some refusal \<Rightarrow> (refusal, s)
      | None \<Rightarrow> setOverrides s date slots)"

subsubsection \<open>Requests and runs\<close>

datatype request =
    GetAvailability "string option"
  | PostBook booking_request
  | PostLogin "string option" "8 word list"
  | GetAdminBookings "string option"
  | GetAdminAvailability "string option"
  | PostAdminAvailability "string option" "string option" "(string \<times> bool) list option"

text \<open>
  One request served by the process whose environment gives \<open>env\<close> as the passcode
  variable, and a sequence of requests served one after the other.
\<close>

fun step :: "string option \<Rightarrow> state \<Rightarrow> request \<Rightarrow> outcome \<times> state" where
  "step env s (GetAvailability date) = availability s date"
| "step env s (PostBook req) = book s req"
| "step env s (PostLogin passcode randomBytes) = login env s passcode randomBytes"
| "step env s (GetAdminBookings authHeader) = admin_get_bookings s authHeader"
| "step env s (GetAdminAvailability authHeader) = admin_get_availability s authHeader"
| "step env s (PostAdminAvailability authHeader date slots) =
     admin_post_availability s authHeader date slots"

fun run :: "string option \<Rightarrow> state \<Rightarrow> request list \<Rightarrow> state" where
  "run env s [] = s"
| "run env s (r # rs) = run env (snd (step env s r)) rs"

subsection \<open>The basic server\<close>

text \<open>
  \<^verbatim>\<open>src/server.js\<close> keeps one store, \<^verbatim>\<open>bookings\<close>, from a date to the list of booked
  slot labels. It has no overrides, no tokens, and its slot list does not look at the date.
  Nothing in it writes to \<^verbatim>\<open>Object.prototype\<close>, so its lookups find the built-in members
  only.
\<close>

type_synonym server_state = "string \<rightharpoonup> string list"

definition server_getStandardAvailability :: "string list" where
  "server_getStandardAvailability =
     [''09:00 AM - 11:00 AM'', ''11:00 AM - 01:00 PM'', ''01:00 PM - 03:00 PM'',
      ''03:00 PM - 05:00 PM'']"

text \<open>
  \<^verbatim>\<open>GET /api/availability\<close>. An inherited \<^verbatim>\<open>bookings[date]\<close> is truthy and has no
  \<^verbatim>\<open>includes\<close>, which the filter calls on the first slot.
\<close>

definition server_availability :: "server_state \<Rightarrow> string option \<Rightarrow> outcome \<times> server_state" where
  "server_availability bk date_param =
     (if falsy date_param
      then (Reply 400 (Message ''Date query parameter is required.''), bk)
      else
        let date = the date_param; allTimes = server_getStandardAvailability
        in (case get_prop Map.empty bk date of
              Inherited \<Rightarrow> (Threw TypeError, bk)
            | found \<Rightarrow>
                let bookedTimesForDate = (case found of Own ts \<Rightarrow> ts | _ \<Rightarrow> []);
                    availableTimes = filter (\<lambda>t. t \<notin> set bookedTimesForDate) allTimes
                in (Reply 200 (AvailableTimes date availableTimes), bk)))"

text \<open>
  \<^verbatim>\<open>POST /api/book\<close>. The missing list is created before the conflict test. The reply
  echoes the request body.
\<close>

definition server_book :: "server_state \<Rightarrow> booking_request \<Rightarrow> outcome \<times> server_state" where
  "server_book bk req =
     (if falsy (req_date req) \<or> falsy (req_time req) \<or> falsy (req_name req) \<or>
         falsy (req_email req) \<or> falsy (req_address req)
      then (Reply 400 (Message ''Missing required booking information.''), bk)
      else
        let date = the (req_date req); t = the (req_time req)
        in (case get_prop Map.empty bk date of
              Inherited \<Rightarrow> (Threw TypeError, bk)
            | found \<Rightarrow>
                let existing = (case found of Own ts \<Rightarrow> ts | _ \<Rightarrow> []);
                    bk1 = bk(date \<mapsto> existing)
                in if t \<in> set existing
                   then (Reply 409 (Message ''This time slot is no longer available.''), bk1)
                   else (Reply 201
                           (Confirmed ''Booking confirmed!''
                              [req_date req, req_time req, req_name req, req_email req,
                               req_address req, req_notes req]),
                         bk1(date \<mapsto> existing @ [t]))))"

datatype server_request = ServerGetAvailability "string option" | ServerPostBook booking_request

fun server_step :: "server_state \<Rightarrow> server_request \<Rightarrow> outcome \<times> server_state" where
  "server_step bk (ServerGetAvailability date) = server_availability bk date"
| "server_step bk (ServerPostBook req) = server_book bk req"

fun server_run :: "server_state \<Rightarrow> server_request list \<Rightarrow> server_state" where
  "server_run bk [] = bk"
| "server_run bk (r # rs) = server_run (snd (server_step bk r)) rs"

subsection \<open>Reading a state and an outcome\<close>

text \<open>The booking records held for a date, and the override entry of a date and slot.\<close>

definition records :: "state \<Rightarrow> string \<Rightarrow> booking list" where
  "records s d = (case bookings s d of Some bs \<Rightarrow> bs | None \<Rightarrow> [])"

definition override_entry :: "state \<Rightarrow> string \<Rightarrow> string \<Rightarrow> bool option" where
  "override_entry s d t = (case availabilityOverrides s d of Some ov \<Rightarrow> ov t | None \<Rightarrow> None)"

definition server_records :: "server_state \<Rightarrow> string \<Rightarrow> string list" where
  "server_records bk d = (case bk d of Some ts \<Rightarrow> ts | None \<Rightarrow> [])"

text \<open>The status of a reply, and the slots that an availability reply lists.\<close>

definition status :: "outcome \<Rightarrow> nat option" where
  "status out = (case out of Reply code body \<Rightarrow> Some code | Threw e \<Rightarrow> None)"


text \<open>At most one booking record for each date and slot.\<close>

definition at_most_one :: "state \<Rightarrow> bool" where
  "at_most_one s = (\<forall>d t. length (filter (\<lambda>b. time b = t) (records s d)) \<le> 1)"

definition server_at_most_one :: "server_state \<Rightarrow> bool" where
  "server_at_most_one bk = (\<forall>d t. length (filter (\<lambda>x. x = t) (server_records bk d)) \<le> 1)"

subsection \<open>Example data\<close>

definition example_booking :: booking where
  "example_booking =
     \<lparr>time = ''09:00 AM - 10:00 AM'', name = ''A'', email = ''a@x.com'',
      address = ''1 Main St'', notes' = None\<rparr>"

text \<open>
  A Tuesday with one slot booked and one disabled, and a Saturday that also holds a
  booking and an override.
\<close>

definition example_state :: state where
  "example_state =
     \<lparr>bookings = [''2025-10-28'' \<mapsto> [example_booking], ''2025-11-01'' \<mapsto> [example_booking]],
      availabilityOverrides =
        [''2025-10-28'' \<mapsto> [''10:00 AM - 11:00 AM'' \<mapsto> False],
         ''2025-11-01'' \<mapsto> [''08:00 AM - 09:00 AM'' \<mapsto> True]],
      validTokens = {}, Object_prototype = Map.empty, builtin_functions = (\<lambda>f. Map.empty)\<rparr>"


text \<open>A booking request that carries every required field.\<close>

abbreviation booking_for ::
  "string \<Rightarrow> string \<Rightarrow> string \<Rightarrow> string \<Rightarrow> string \<Rightarrow> string option \<Rightarrow> booking_request" where
  "booking_for D T n e a nt \<equiv>
     \<lparr>req_date = Some D, req_time = Some T, req_name = Some n, req_email = Some e,
      req_address = Some a, req_notes = nt\<rparr>"

section \<open>Availability\<close>

lemma date_pattern_length: "date_pattern d \<Longrightarrow> length d = 10"
  by (erule date_pattern.elims) simp_all

lemma date_pattern_own: "date_pattern d \<Longrightarrow> d \<notin> set object_prototype_keys"
  by (drule date_pattern_length) (auto simp: object_prototype_keys_def)

lemma get_prop_own:
  "key \<notin> set object_prototype_keys \<Longrightarrow>
   get_prop Map.empty obj key = (case obj key of Some v \<Rightarrow> Own v | None \<Rightarrow> Undefined)"
  by (simp add: get_prop_def split: option.splits)

lemma availability_ok:
  assumes "date_pattern d" and "Object_prototype s = Map.empty"
  shows "availability s (Some d) =
    (Reply 200 (AvailableTimes d
       (filter (\<lambda>t. override_entry s d t \<noteq> Some False \<and>
                    \<not> list_ex (\<lambda>b. time b = t) (records s d))
          (getStandardAvailability (new_Date_utc d)))), s)"
proof -
  from assms(1) have ne: "d \<noteq> []" by auto
  from assms(1) have own: "d \<notin> set object_prototype_keys" by (rule date_pattern_own)
  show ?thesis
    using assms ne
    by (auto simp: availability_def get_prop_own [OF own] records_def override_entry_def
        isManuallyDisabled_def truthy_def Let_def list_ex_iff
        split: option.splits intro!: filter_cong)
qed

text \<open>The query never changes the state.\<close>

lemma availability_state: "snd (availability s date_param) = s"
  by (auto simp: availability_def Let_def split: option.splits property.splits bool.splits)

lemma availability_bad:
  "date_param = None \<or> (\<exists>d. date_param = Some d \<and> \<not> date_pattern d) \<Longrightarrow>
   availability s date_param =
     (Reply 400 (Message ''A valid date in YYYY-MM-DD format is required.''), s)"
  by (auto simp: availability_def)

lemmas date_eval =
  is_digit_def digit_val_def getUTCDay_def MakeDay_def DayFromYear_def InLeapYear_def
  DaysBeforeMonth_def msPerDay_def

lemma tuesday: "date_pattern ''2025-10-28'' \<and> getUTCDay (new_Date_utc ''2025-10-28'') = Some 2"
  by (simp add: date_eval)




text \<open>
  C5. In the server with the admin surface, the availability query answers 400 exactly
  when the date parameter is missing or does not match \<^verbatim>\<open>^\d{4}-\d{2}-\d{2}$\<close>, and it
  never changes the state; when the parameter matches it answers 200, as long as no
  override patch has written into \<^verbatim>\<open>Object.prototype\<close>. The basic server answers 400
  exactly when the date parameter is missing or empty.
\<close>

theorem availability_400_iff:
  "(status (fst (availability s date_param)) = Some 400 \<longleftrightarrow>
      date_param = None \<or> (\<exists>d. date_param = Some d \<and> \<not> date_pattern d)) \<and>
   snd (availability s date_param) = s \<and>
   (Object_prototype s = Map.empty \<longrightarrow>
      status (fst (availability s date_param)) =
        (if date_param = None \<or> (\<exists>d. date_param = Some d \<and> \<not> date_pattern d)
         then Some 400 else Some 200)) \<and>
   (status (fst (server_availability bk date_param)) = Some 400 \<longleftrightarrow> falsy date_param)"
proof -
  have 0: "status (fst (availability s date_param)) = Some 400 \<longleftrightarrow>
      date_param = None \<or> (\<exists>d. date_param = Some d \<and> \<not> date_pattern d)"
  proof (cases "date_param = None \<or> (\<exists>d. date_param = Some d \<and> \<not> date_pattern d)")
    case True
    then show ?thesis by (simp add: availability_bad status_def)
  next
    case False
    then obtain d where "date_param = Some d" "date_pattern d" by auto
    with False show ?thesis
      by (auto simp: availability_def status_def Let_def split: property.splits bool.splits)
  qed
  have 1: "status (fst (availability s date_param)) =
     (if date_param = None \<or> (\<exists>d. date_param = Some d \<and> \<not> date_pattern d)
      then Some 400 else Some 200)" if p: "Object_prototype s = Map.empty"
  proof (cases "date_param = None \<or> (\<exists>d. date_param = Some d \<and> \<not> date_pattern d)")
    case True
    then show ?thesis by (simp add: availability_bad status_def)
  next
    case False
    then obtain d where "date_param = Some d" "date_pattern d" by auto
    with False p show ?thesis by (simp add: availability_ok status_def)
  qed
  have 2: "snd (availability s date_param) = s" by (rule availability_state)
  have 3: "status (fst (server_availability bk date_param)) = Some 400 \<longleftrightarrow> falsy date_param"
    by (auto simp: server_availability_def status_def get_prop_def Let_def
        split: option.splits)
  from 0 1 2 3 show ?thesis by (intro conjI impI)
qed

theorem availability_400_iff_witness:
  "Object_prototype init = Map.empty \<and> date_pattern ''2025-10-28'' \<and>
   status (fst (availability init (Some ''2025-10-28''))) = Some 200 \<and>
   \<not> date_pattern ''2025-1-5'' \<and>
   status (fst (availability init (Some ''2025-1-5''))) = Some 400"
proof -
  have p: "Object_prototype init = Map.empty" by (simp add: init_def)
  have d: "date_pattern ''2025-10-28''" by (rule tuesday [THEN conjunct1])
  have n: "\<not> date_pattern ''2025-1-5''" by simp
  from availability_400_iff [of init "Some ''2025-10-28''" Map.empty] p d
  have 1: "status (fst (availability init (Some ''2025-10-28''))) = Some 200" by auto
  from availability_400_iff [of init "Some ''2025-1-5''" Map.empty] n
  have 2: "status (fst (availability init (Some ''2025-1-5''))) = Some 400" by auto
  from p d 1 n 2 show ?thesis by (intro conjI)
qed

text \<open>
  The claim of C5 as stated fails on the basic server: a date parameter that does not
  match the pattern is answered with 200 and the four slots.
\<close>

theorem server_availability_accepts_malformed_date:
  "\<not> date_pattern ''tomorrow'' \<and>
   server_availability Map.empty (Some ''tomorrow'') =
     (Reply 200
        (AvailableTimes ''tomorrow''
           [''09:00 AM - 11:00 AM'', ''11:00 AM - 01:00 PM'', ''01:00 PM - 03:00 PM'',
            ''03:00 PM - 05:00 PM'']),
      Map.empty)"
  by (simp add: server_availability_def falsy_def get_prop_def object_prototype_keys_def
      server_getStandardAvailability_def)






section \<open>Booking\<close>


lemma book_complete:
  assumes "D \<noteq> []" "T \<noteq> []" "n \<noteq> []" "e \<noteq> []" "a \<noteq> []"
    and "D \<notin> set object_prototype_keys"
    and "Object_prototype s = Map.empty"
  shows "book s (booking_for D T n e a nt) =
     (if list_ex (\<lambda>b. time b = T) (records s D) \<or> override_entry s D T = Some False
      then (Reply 409 (Message ''This time slot is no longer available.''), s)
      else (Reply 201 (Success ''Booking confirmed!''),
            s\<lparr>bookings := (bookings s)(D \<mapsto> records s D @
                 [\<lparr>time = T, name = n, email = e, address = a, notes' = nt\<rparr>])\<rparr>))"
  using assms
  by (auto simp: book_def falsy_def get_prop_own records_def override_entry_def
      isManuallyDisabled_def truthy_def Let_def split: option.splits)

text \<open>A booking request leaves the state as it is or appends one record for a free slot.\<close>

lemma book_effect:
  "snd (book s req) = s \<or>
   (snd (book s req) =
      s\<lparr>bookings := (bookings s)(the (req_date req) \<mapsto> records s (the (req_date req)) @
         [\<lparr>time = the (req_time req), name = the (req_name req), email = the (req_email req),
           address = the (req_address req), notes' = req_notes req\<rparr>])\<rparr> \<and>
    \<not> list_ex (\<lambda>x. time x = the (req_time req)) (records s (the (req_date req))))"
proof (cases "get_prop (Object_prototype s) (bookings s) (the (req_date req))")
  case (Own bs)
  then have "bookings s (the (req_date req)) = Some bs"
    by (auto simp: get_prop_def split: option.splits if_splits)
  with Own show ?thesis by (auto simp: book_def Let_def records_def)
next
  case (Written b)
  then have "bookings s (the (req_date req)) = None"
    by (auto simp: get_prop_def split: option.splits if_splits)
  with Written show ?thesis by (cases b) (auto simp: book_def Let_def records_def)
next
  case Inherited
  then show ?thesis by (auto simp: book_def Let_def)
next
  case Undefined
  then have "bookings s (the (req_date req)) = None"
    by (auto simp: get_prop_def split: option.splits if_splits)
  with Undefined show ?thesis by (auto simp: book_def Let_def records_def)
qed




lemma server_book_effect:
  "snd (server_book bk req) = bk \<or>
   (snd (server_book bk req) =
      bk(the (req_date req) \<mapsto> server_records bk (the (req_date req)) @ [the (req_time req)]) \<and>
    the (req_time req) \<notin> set (server_records bk (the (req_date req))))"
  by (auto simp: server_book_def Let_def server_records_def get_prop_def map_upd_triv
      split: property.splits option.splits)







section \<open>Runs of requests\<close>

lemma setOverrides_frame:
  "bookings (snd (setOverrides s date slots)) = bookings s \<and>
   validTokens (snd (setOverrides s date slots)) = validTokens s"
  by (auto simp: setOverrides_def Let_def split: property.splits bool.splits)

text \<open>What one request does to the booking store and to the token set.\<close>

lemma step_effect:
  "(bookings (snd (step env s r)) = bookings s \<or>
    (\<exists>D b. bookings (snd (step env s r)) = (bookings s)(D \<mapsto> records s D @ [b]) \<and>
           \<not> list_ex (\<lambda>x. time x = time b) (records s D))) \<and>
   validTokens s \<subseteq> validTokens (snd (step env s r))"
proof (cases r)
  case (GetAvailability p)
  then show ?thesis by (simp add: availability_state)
next
  case (PostBook req)
  then have s': "snd (step env s r) = snd (book s req)" by simp
  from book_effect [of s req] show ?thesis
  proof
    assume "snd (book s req) = s"
    with s' show ?thesis by simp
  next
    let ?b = "\<lparr>time = the (req_time req), name = the (req_name req),
      email = the (req_email req), address = the (req_address req), notes' = req_notes req\<rparr>"
    let ?D = "the (req_date req)"
    assume a: "snd (book s req) = s\<lparr>bookings := (bookings s)(?D \<mapsto> records s ?D @ [?b])\<rparr> \<and>
      \<not> list_ex (\<lambda>x. time x = the (req_time req)) (records s ?D)"
    with s' have 1: "bookings (snd (step env s r)) = (bookings s)(?D \<mapsto> records s ?D @ [?b])"
      and 2: "validTokens (snd (step env s r)) = validTokens s" by simp_all
    from a have 3: "\<not> list_ex (\<lambda>x. time x = time ?b) (records s ?D)" by simp
    from 1 3 have "\<exists>D b. bookings (snd (step env s r)) = (bookings s)(D \<mapsto> records s D @ [b]) \<and>
                 \<not> list_ex (\<lambda>x. time x = time b) (records s D)" by blast
    with 2 show ?thesis by simp
  qed
next
  case (PostLogin passcode randomBytes)
  then show ?thesis by (auto simp: login_def Let_def)
next
  case (GetAdminBookings h)
  then show ?thesis by (auto simp: admin_get_bookings_def split: option.splits)
next
  case (GetAdminAvailability h)
  then show ?thesis by (auto simp: admin_get_availability_def split: option.splits)
next
  case (PostAdminAvailability h date slots)
  then show ?thesis
    using setOverrides_frame [of s date slots]
    by (auto simp: admin_post_availability_def split: option.splits)
qed

lemma step_records:
  "records (snd (step env s r)) d = records s d \<or>
   (\<exists>b. records (snd (step env s r)) d = records s d @ [b] \<and>
        \<not> list_ex (\<lambda>x. time x = time b) (records s d))"
  using step_effect [of env s r] by (auto simp: records_def)




lemma step_at_most_one:
  assumes "at_most_one s"
  shows "at_most_one (snd (step env s r))"
  unfolding at_most_one_def
proof (intro allI)
  fix d t
  let ?s' = "snd (step env s r)"
  from assms have le: "length (filter (\<lambda>b. time b = t) (records s d)) \<le> 1"
    by (simp add: at_most_one_def)
  from step_records [of env s r d]
  show "length (filter (\<lambda>b. time b = t) (records ?s' d)) \<le> 1"
  proof
    assume "records ?s' d = records s d"
    with le show ?thesis by simp
  next
    assume "\<exists>b. records ?s' d = records s d @ [b] \<and>
      \<not> list_ex (\<lambda>x. time x = time b) (records s d)"
    then obtain b where eq: "records ?s' d = records s d @ [b]"
      and free: "\<not> list_ex (\<lambda>x. time x = time b) (records s d)" by blast
    show ?thesis
    proof (cases "time b = t")
      case True
      with free have "filter (\<lambda>b. time b = t) (records s d) = []"
        by (auto simp: list_ex_iff filter_empty_conv)
      with True eq show ?thesis by simp
    next
      case False
      with eq le show ?thesis by simp
    qed
  qed
qed

lemma run_at_most_one: "at_most_one s \<Longrightarrow> at_most_one (run env s rs)"
  by (induction rs arbitrary: s) (simp_all add: step_at_most_one)

lemma server_step_records:
  "server_records (snd (server_step bk r)) d = server_records bk d \<or>
   (\<exists>t. server_records (snd (server_step bk r)) d = server_records bk d @ [t] \<and>
        t \<notin> set (server_records bk d))"
proof (cases r)
  case (ServerGetAvailability p)
  have "snd (server_availability bk p) = bk"
    by (auto simp: server_availability_def Let_def split: property.splits)
  with ServerGetAvailability show ?thesis by simp
next
  case (ServerPostBook req)
  from server_book_effect [of bk req] ServerPostBook show ?thesis
    by (auto simp: server_records_def)
qed

lemma server_step_at_most_one:
  assumes "server_at_most_one bk"
  shows "server_at_most_one (snd (server_step bk r))"
  unfolding server_at_most_one_def
proof (intro allI)
  fix d t
  from assms have le: "length (filter (\<lambda>x. x = t) (server_records bk d)) \<le> 1"
    by (simp add: server_at_most_one_def)
  from server_step_records [of bk r d]
  show "length (filter (\<lambda>x. x = t) (server_records (snd (server_step bk r)) d)) \<le> 1"
  proof
    assume "server_records (snd (server_step bk r)) d = server_records bk d"
    with le show ?thesis by simp
  next
    assume "\<exists>t. server_records (snd (server_step bk r)) d = server_records bk d @ [t] \<and>
        t \<notin> set (server_records bk d)"
    then obtain u where eq: "server_records (snd (server_step bk r)) d = server_records bk d @ [u]"
      and free: "u \<notin> set (server_records bk d)" by blast
    show ?thesis
    proof (cases "u = t")
      case True
      with free have "filter (\<lambda>x. x = t) (server_records bk d) = []"
        by (auto simp: filter_empty_conv)
      with True eq show ?thesis by simp
    next
      case False
      with eq le show ?thesis by simp
    qed
  qed
qed

lemma server_run_at_most_one:
  "server_at_most_one bk \<Longrightarrow> server_at_most_one (server_run bk rs)"
  by (induction rs arbitrary: bk) (simp_all add: server_step_at_most_one)



section \<open>The invariant of the booking store\<close>

text \<open>
  C3. In both servers the empty initial store holds at most one booking record for each
  date and slot, every request (the availability query, a booking, a login, the two
  admin listings, an override patch) preserves that in every state, and so it holds in
  every state reached from the initial one.
\<close>

theorem one_booking_per_slot:
  "at_most_one init \<and>
   (\<forall>env s r. at_most_one s \<longrightarrow> at_most_one (snd (step env s r))) \<and>
   (\<forall>env rs. at_most_one (run env init rs)) \<and>
   server_at_most_one Map.empty \<and>
   (\<forall>bk r. server_at_most_one bk \<longrightarrow> server_at_most_one (snd (server_step bk r))) \<and>
   (\<forall>rs. server_at_most_one (server_run Map.empty rs))"
proof -
  have i: "at_most_one init" by (simp add: at_most_one_def records_def init_def)
  have si: "server_at_most_one Map.empty"
    by (simp add: server_at_most_one_def server_records_def)
  from i have r: "\<forall>env rs. at_most_one (run env init rs)"
    by (blast intro: run_at_most_one)
  from si have sr: "\<forall>rs. server_at_most_one (server_run Map.empty rs)"
    by (blast intro: server_run_at_most_one)
  have st: "\<forall>env s r. at_most_one s \<longrightarrow> at_most_one (snd (step env s r))"
    by (blast intro: step_at_most_one)
  have sst: "\<forall>bk r. server_at_most_one bk \<longrightarrow> server_at_most_one (snd (server_step bk r))"
    by (blast intro: server_step_at_most_one)
  from i st r si sst sr show ?thesis by (intro conjI)
qed

text \<open>The same booking sent twice: the second is refused and one record remains.\<close>

theorem one_booking_per_slot_witness:
  "run None init
     [PostBook (booking_for ''2025-10-28'' ''09:00 AM - 10:00 AM'' ''A'' ''a@x.com'' ''1 Main St'' None),
      PostBook (booking_for ''2025-10-28'' ''09:00 AM - 10:00 AM'' ''A'' ''a@x.com'' ''1 Main St'' None)] =
     init\<lparr>bookings := [''2025-10-28'' \<mapsto> [example_booking]]\<rparr> \<and>
   at_most_one (init\<lparr>bookings := [''2025-10-28'' \<mapsto> [example_booking]]\<rparr>) \<and>
   length (filter (\<lambda>b. time b = ''09:00 AM - 10:00 AM'')
     (records (init\<lparr>bookings := [''2025-10-28'' \<mapsto> [example_booking]]\<rparr>) ''2025-10-28'')) = 1"
proof -
  have k: "''2025-10-28'' \<notin> set object_prototype_keys"
    by (simp add: object_prototype_keys_def)
  have p: "Object_prototype init = Map.empty"
    "Object_prototype (init\<lparr>bookings := [''2025-10-28'' \<mapsto> [example_booking]]\<rparr>) = Map.empty"
    by (simp_all add: init_def)
  have b1: "book init (booking_for ''2025-10-28'' ''09:00 AM - 10:00 AM'' ''A'' ''a@x.com'' ''1 Main St'' None) =
     (Reply 201 (Success ''Booking confirmed!''),
      init\<lparr>bookings := [''2025-10-28'' \<mapsto> [example_booking]]\<rparr>)"
    using book_complete [OF _ _ _ _ _ k p(1),
        of "''09:00 AM - 10:00 AM''" "''A''" "''a@x.com''" "''1 Main St''" None]
    by (simp add: records_def override_entry_def init_def example_booking_def)
  have b2: "book (init\<lparr>bookings := [''2025-10-28'' \<mapsto> [example_booking]]\<rparr>)
      (booking_for ''2025-10-28'' ''09:00 AM - 10:00 AM'' ''A'' ''a@x.com'' ''1 Main St'' None) =
     (Reply 409 (Message ''This time slot is no longer available.''),
      init\<lparr>bookings := [''2025-10-28'' \<mapsto> [example_booking]]\<rparr>)"
    using book_complete [OF _ _ _ _ _ k p(2),
        of "''09:00 AM - 10:00 AM''" "''A''" "''a@x.com''" "''1 Main St''" None]
    by (simp add: records_def override_entry_def init_def example_booking_def)
  have r: "run None init
     [PostBook (booking_for ''2025-10-28'' ''09:00 AM - 10:00 AM'' ''A'' ''a@x.com'' ''1 Main St'' None),
      PostBook (booking_for ''2025-10-28'' ''09:00 AM - 10:00 AM'' ''A'' ''a@x.com'' ''1 Main St'' None)] =
     init\<lparr>bookings := [''2025-10-28'' \<mapsto> [example_booking]]\<rparr>"
    by (simp add: b1 b2)
  from one_booking_per_slot have "at_most_one (run None init
     [PostBook (booking_for ''2025-10-28'' ''09:00 AM - 10:00 AM'' ''A'' ''a@x.com'' ''1 Main St'' None),
      PostBook (booking_for ''2025-10-28'' ''09:00 AM - 10:00 AM'' ''A'' ''a@x.com'' ''1 Main St'' None)])"
    by blast
  then have a: "at_most_one (init\<lparr>bookings := [''2025-10-28'' \<mapsto> [example_booking]]\<rparr>)"
    unfolding r .
  have l: "length (filter (\<lambda>b. time b = ''09:00 AM - 10:00 AM'')
     (records (init\<lparr>bookings := [''2025-10-28'' \<mapsto> [example_booking]]\<rparr>) ''2025-10-28'')) = 1"
    by (simp add: records_def example_booking_def)
  from r a l show ?thesis by (intro conjI)
qed

section \<open>Bookings outside the standard slots\<close>



section \<open>Admin access\<close>












section \<open>Override patches\<close>

text \<open>
  What \<^verbatim>\<open>Object.assign\<close> leaves in the target: a key of the patch holds the patch's
  value (the last one, should the key occur twice), any other key what it held before.
\<close>

lemma Object_assign_lookup:
  "''__proto__'' \<notin> fst ` set patch \<Longrightarrow>
   Object_assign target patch t =
     (case map_of (rev patch) t of Some v \<Rightarrow> Some v | None \<Rightarrow> target t)"
proof (induction patch arbitrary: target)
  case Nil
  then show ?case by simp
next
  case (Cons kv patch)
  obtain k v where kv: "kv = (k, v)" by (cases kv)
  from Cons.prems kv have k: "k \<noteq> ''__proto__''" and rest: "''__proto__'' \<notin> fst ` set patch"
    by auto
  have "Object_assign target (kv # patch) t = Object_assign (target(k \<mapsto> v)) patch t"
    using k kv by simp
  also have "\<dots> = (case map_of (rev patch) t of Some w \<Rightarrow> Some w | None \<Rightarrow> (target(k \<mapsto> v)) t)"
    by (rule Cons.IH [OF rest])
  also have "\<dots> = (case map_of (rev (kv # patch)) t of Some w \<Rightarrow> Some w | None \<Rightarrow> target t)"
    using kv by (auto simp: map_add_def split: option.splits)
  finally show ?case .
qed

text \<open>Members are written, never removed.\<close>

lemma Object_assign_keeps: "target k \<noteq> None \<Longrightarrow> Object_assign target patch k \<noteq> None"
  by (induction patch arbitrary: target) auto

text \<open>
  A patch for a date that is no built-in name, in a process where no patch has written
  a member of that name into \<^verbatim>\<open>Object.prototype\<close> or has overwritten
  \<^verbatim>\<open>Object.assign\<close>: the patch goes into the date's own override object.
\<close>

lemma setOverrides_own_date:
  assumes "D \<noteq> []" and "D \<notin> set object_prototype_keys"
    and "Object_prototype s D = None"
    and "builtin_functions s ''constructor'' ''assign'' = None"
  shows "setOverrides s (Some D) (Some patch) =
     (Reply 200 (Success (''Availability for '' @ D @ '' updated.'')),
      s\<lparr>availabilityOverrides := (availabilityOverrides s)(D \<mapsto>
          Object_assign (case availabilityOverrides s D of Some ov \<Rightarrow> ov | None \<Rightarrow> Map.empty)
            patch)\<rparr>)"
  using assms
  by (auto simp: setOverrides_def falsy_def get_prop_def truthy_def Let_def split: option.splits)

text \<open>
  For such a date and a patch without a member named \<^verbatim>\<open>__proto__\<close>, the call succeeds
  with 200 and touches the override entries of that date only: every slot key of the
  patch gets the patch's value, every other slot's entry and every other date's entries
  are unchanged, and so is the rest of the state.
\<close>

lemma setOverrides_own_date_frame:
  assumes "D \<noteq> []" and "D \<notin> set object_prototype_keys"
    and "Object_prototype s D = None"
    and "builtin_functions s ''constructor'' ''assign'' = None"
    and "''__proto__'' \<notin> fst ` set patch"
  shows "\<exists>s'. setOverrides s (Some D) (Some patch) =
           (Reply 200 (Success (''Availability for '' @ D @ '' updated.'')), s') \<and>
         (\<forall>d. d \<noteq> D \<longrightarrow> availabilityOverrides s' d = availabilityOverrides s d) \<and>
         (\<forall>t v. map_of (rev patch) t = Some v \<longrightarrow> override_entry s' D t = Some v) \<and>
         (\<forall>t. t \<notin> fst ` set patch \<longrightarrow> override_entry s' D t = override_entry s D t) \<and>
         bookings s' = bookings s \<and> validTokens s' = validTokens s \<and>
         Object_prototype s' = Object_prototype s \<and> builtin_functions s' = builtin_functions s"
proof -
  let ?target = "case availabilityOverrides s D of Some ov \<Rightarrow> ov | None \<Rightarrow> Map.empty"
  let ?s' = "s\<lparr>availabilityOverrides := (availabilityOverrides s)(D \<mapsto> Object_assign ?target patch)\<rparr>"
  have r: "setOverrides s (Some D) (Some patch) =
           (Reply 200 (Success (''Availability for '' @ D @ '' updated.'')), ?s')"
    by (rule setOverrides_own_date [OF assms(1-4)])
  have e: "override_entry ?s' D t =
      (case map_of (rev patch) t of Some v \<Rightarrow> Some v | None \<Rightarrow> override_entry s D t)" for t
    by (simp add: override_entry_def Object_assign_lookup [OF assms(5)] split: option.splits)
  have 1: "\<forall>d. d \<noteq> D \<longrightarrow> availabilityOverrides ?s' d = availabilityOverrides s d" by simp
  have 2: "\<forall>t v. map_of (rev patch) t = Some v \<longrightarrow> override_entry ?s' D t = Some v"
    by (simp add: e)
  have 3: "\<forall>t. t \<notin> fst ` set patch \<longrightarrow> override_entry ?s' D t = override_entry s D t"
  proof (intro allI impI)
    fix t assume "t \<notin> fst ` set patch"
    then have "map_of (rev patch) t = None" by (simp add: map_of_eq_None_iff)
    then show "override_entry ?s' D t = override_entry s D t" by (simp add: e)
  qed
  have 4: "bookings ?s' = bookings s \<and> validTokens ?s' = validTokens s \<and>
      Object_prototype ?s' = Object_prototype s \<and> builtin_functions ?s' = builtin_functions s"
    by simp
  from r 1 2 3 4 show ?thesis by blast
qed

text \<open>
  A patch for the date \<^verbatim>\<open>__proto__\<close>: \<^verbatim>\<open>availabilityOverrides['__proto__']\<close> is
  \<^verbatim>\<open>Object.prototype\<close>, which is truthy, so no own entry is created and the members are
  written into \<^verbatim>\<open>Object.prototype\<close>.
\<close>

lemma setOverrides_writes_prototype:
  assumes "availabilityOverrides s ''__proto__'' = None"
    and "Object_prototype s ''__proto__'' = None"
    and "builtin_functions s ''constructor'' ''assign'' = None"
  shows "setOverrides s (Some ''__proto__'') (Some patch) =
     (Reply 200 (Success ''Availability for __proto__ updated.''),
      s\<lparr>Object_prototype := Object_assign (Object_prototype s) patch\<rparr>)"
  using assms
  by (simp add: setOverrides_def falsy_def get_prop_def truthy_def object_prototype_keys_def)

text \<open>
  C9. A successful override patch does not always leave the other dates alone. In the
  example state, the patch \<^verbatim>\<open>{"08:00 AM - 09:00 AM": false}\<close> for the date
  \<^verbatim>\<open>__proto__\<close> is answered 200 and leaves the override store as it was, writing the
  member into \<^verbatim>\<open>Object.prototype\<close> instead. From then on the override object of
  2025-10-28, which does not hold that slot, reads it as \<^verbatim>\<open>false\<close>: the availability
  query for 2025-10-28 listed the 08:00 slot before the patch and lists nothing after
  it, and a booking of that slot, confirmed with 201 before the patch, is refused with
  409 after it.
\<close>

theorem setOverrides_changes_other_dates:
  "setOverrides example_state (Some ''__proto__'') (Some [(''08:00 AM - 09:00 AM'', False)]) =
     (Reply 200 (Success ''Availability for __proto__ updated.''),
      example_state\<lparr>Object_prototype := [''08:00 AM - 09:00 AM'' \<mapsto> False]\<rparr>) \<and>
   availability example_state (Some ''2025-10-28'') =
     (Reply 200 (AvailableTimes ''2025-10-28'' [''08:00 AM - 09:00 AM'']), example_state) \<and>
   availability (example_state\<lparr>Object_prototype := [''08:00 AM - 09:00 AM'' \<mapsto> False]\<rparr>)
       (Some ''2025-10-28'') =
     (Reply 200 (AvailableTimes ''2025-10-28'' []),
      example_state\<lparr>Object_prototype := [''08:00 AM - 09:00 AM'' \<mapsto> False]\<rparr>) \<and>
   fst (book example_state
          (booking_for ''2025-10-28'' ''08:00 AM - 09:00 AM'' ''B'' ''b@x.com'' ''2 Main St'' None)) =
     Reply 201 (Success ''Booking confirmed!'') \<and>
   book (example_state\<lparr>Object_prototype := [''08:00 AM - 09:00 AM'' \<mapsto> False]\<rparr>)
       (booking_for ''2025-10-28'' ''08:00 AM - 09:00 AM'' ''B'' ''b@x.com'' ''2 Main St'' None) =
     (Reply 409 (Message ''This time slot is no longer available.''),
      example_state\<lparr>Object_prototype := [''08:00 AM - 09:00 AM'' \<mapsto> False]\<rparr>)"
proof -
  let ?s = "example_state\<lparr>Object_prototype := [''08:00 AM - 09:00 AM'' \<mapsto> False]\<rparr>"
  let ?req = "booking_for ''2025-10-28'' ''08:00 AM - 09:00 AM'' ''B'' ''b@x.com'' ''2 Main St'' None"
  have 1: "setOverrides example_state (Some ''__proto__'')
      (Some [(''08:00 AM - 09:00 AM'', False)]) =
     (Reply 200 (Success ''Availability for __proto__ updated.''), ?s)"
    using setOverrides_writes_prototype [of example_state "[(''08:00 AM - 09:00 AM'', False)]"]
    by (simp add: example_state_def)
  have 2: "availability example_state (Some ''2025-10-28'') =
     (Reply 200 (AvailableTimes ''2025-10-28'' [''08:00 AM - 09:00 AM'']), example_state)"
    by (simp add: availability_def Let_def date_eval getStandardAvailability_def
        example_state_def example_booking_def get_prop_def object_prototype_keys_def
        truthy_def isManuallyDisabled_def)
  have 3: "availability ?s (Some ''2025-10-28'') =
     (Reply 200 (AvailableTimes ''2025-10-28'' []), ?s)"
    by (simp add: availability_def Let_def date_eval getStandardAvailability_def
        example_state_def example_booking_def get_prop_def object_prototype_keys_def
        truthy_def isManuallyDisabled_def)
  have 4: "fst (book example_state ?req) = Reply 201 (Success ''Booking confirmed!'')"
    by (simp add: book_def Let_def falsy_def example_state_def example_booking_def
        get_prop_def object_prototype_keys_def truthy_def isManuallyDisabled_def)
  have 5: "book ?s ?req = (Reply 409 (Message ''This time slot is no longer available.''), ?s)"
    by (simp add: book_def Let_def falsy_def example_state_def example_booking_def
        get_prop_def object_prototype_keys_def truthy_def isManuallyDisabled_def)
  from 1 2 3 4 5 show ?thesis by (intro conjI)
qed

section \<open>Property names inherited from the object prototype\<close>

text \<open>
  For one of the twelve names of \<open>object_prototype_keys\<close> as the date, not an own key of
  the store and not written into \<^verbatim>\<open>Object.prototype\<close> by a patch, \<^verbatim>\<open>bookings[date]\<close> is
  a built-in value: the booking handlers, and the availability query of the basic
  server, throw.
\<close>

lemma book_inherited_date:
  assumes "D \<in> set object_prototype_keys" and "bookings s D = None"
    and "Object_prototype s D = None"
    and "T \<noteq> []" "n \<noteq> []" "e \<noteq> []" "a \<noteq> []"
  shows "book s (booking_for D T n e a nt) = (Threw TypeError, s)"
proof -
  from assms(1) have "D \<noteq> []" by (auto simp: object_prototype_keys_def)
  with assms show ?thesis by (simp add: book_def falsy_def get_prop_def)
qed

text \<open>For example, a booking for the date \<^verbatim>\<open>constructor\<close>.\<close>

lemma book_constructor:
  "book init (booking_for ''constructor'' ''09:00 AM - 10:00 AM'' ''A'' ''a@x.com'' ''1 Main St'' None) =
     (Threw TypeError, init)"
  by (rule book_inherited_date) (simp_all add: object_prototype_keys_def init_def)

lemma server_book_inherited_date:
  assumes "D \<in> set object_prototype_keys" and "bk D = None"
    and "T \<noteq> []" "n \<noteq> []" "e \<noteq> []" "a \<noteq> []"
  shows "server_book bk (booking_for D T n e a nt) = (Threw TypeError, bk)"
proof -
  from assms(1) have "D \<noteq> []" by (auto simp: object_prototype_keys_def)
  with assms show ?thesis by (simp add: server_book_def falsy_def get_prop_def)
qed

lemma server_availability_inherited_date:
  assumes "D \<in> set object_prototype_keys" and "bk D = None"
  shows "server_availability bk (Some D) = (Threw TypeError, bk)"
proof -
  from assms(1) have "D \<noteq> []" by (auto simp: object_prototype_keys_def)
  with assms show ?thesis by (simp add: server_availability_def falsy_def get_prop_def)
qed

text \<open>An override patch ignores a member named \<^verbatim>\<open>__proto__\<close>.\<close>

lemma Object_assign_proto_member: "Object_assign target [(''__proto__'', b)] = target"
  by simp

text \<open>
  An override patch for another built-in name writes its members into the function held
  under that name, and throws on a read-only key.
\<close>

lemma setOverrides_function_date:
  assumes "D \<in> set object_prototype_keys" and "D \<noteq> ''__proto__''"
    and "availabilityOverrides s D = None" and "Object_prototype s D = None"
    and "builtin_functions s ''constructor'' ''assign'' = None"
  shows "setOverrides s (Some D) (Some patch) =
     (if snd (assign_to_function (readonly_keys D) (builtin_functions s D) patch)
      then Threw TypeError
      else Reply 200 (Success (''Availability for '' @ D @ '' updated.'')),
      s\<lparr>builtin_functions := (builtin_functions s)
           (D := fst (assign_to_function (readonly_keys D) (builtin_functions s D) patch))\<rparr>)"
proof -
  from assms(1) have "D \<noteq> []" by (auto simp: object_prototype_keys_def)
  with assms show ?thesis
    by (simp add: setOverrides_def falsy_def get_prop_def truthy_def Let_def)
qed

text \<open>
  For example, the patch \<^verbatim>\<open>{"assign": false}\<close> for the date \<^verbatim>\<open>constructor\<close> overwrites
  \<^verbatim>\<open>Object.assign\<close>: every later patch throws, after the creation of the own entry. The
  patch \<^verbatim>\<open>{"name": false}\<close> for the date \<^verbatim>\<open>toString\<close> throws at once.
\<close>

lemma setOverrides_overwrites_assign:
  "setOverrides init (Some ''constructor'') (Some [(''assign'', False)]) =
     (Reply 200 (Success ''Availability for constructor updated.''),
      init\<lparr>builtin_functions := (\<lambda>f. Map.empty)(''constructor'' := [''assign'' \<mapsto> False])\<rparr>) \<and>
   setOverrides
       (init\<lparr>builtin_functions := (\<lambda>f. Map.empty)(''constructor'' := [''assign'' \<mapsto> False])\<rparr>)
       (Some ''2025-10-28'') (Some [(''08:00 AM - 09:00 AM'', False)]) =
     (Threw TypeError,
      init\<lparr>builtin_functions := (\<lambda>f. Map.empty)(''constructor'' := [''assign'' \<mapsto> False]),
           availabilityOverrides := [''2025-10-28'' \<mapsto> Map.empty]\<rparr>)"
  by (simp add: setOverrides_def falsy_def get_prop_def truthy_def Let_def init_def
      object_prototype_keys_def readonly_keys_def)

lemma setOverrides_readonly_key:
  "setOverrides init (Some ''toString'') (Some [(''name'', False)]) = (Threw TypeError, init)"
  by (simp add: setOverrides_def falsy_def get_prop_def truthy_def Let_def init_def
      object_prototype_keys_def readonly_keys_def fun_eq_iff)

text \<open>
  No request removes a member from \<^verbatim>\<open>Object.prototype\<close>, and only a booking changes the
  booking store. So in every state that a run reaches from the initial one, a built-in
  name that is an own key of the booking store is also a written member of
  \<^verbatim>\<open>Object.prototype\<close>.
\<close>

lemma step_bookings:
  "(\<forall>req. r \<noteq> PostBook req) \<Longrightarrow> bookings (snd (step env s r)) = bookings s"
  using setOverrides_frame [of s]
  by (cases r)
    (auto simp: availability_state login_def Let_def admin_get_bookings_def
      admin_get_availability_def admin_post_availability_def split: option.splits)

lemma step_keeps_prototype_member:
  assumes "Object_prototype s k \<noteq> None"
  shows "Object_prototype (snd (step env s r)) k \<noteq> None"
proof (cases r)
  case (GetAvailability p)
  with assms show ?thesis by (simp add: availability_state)
next
  case (PostBook req)
  with assms book_effect [of s req] show ?thesis by auto
next
  case (PostLogin passcode randomBytes)
  with assms show ?thesis by (auto simp: login_def Let_def)
next
  case (GetAdminBookings h)
  with assms show ?thesis by (auto simp: admin_get_bookings_def split: option.splits)
next
  case (GetAdminAvailability h)
  with assms show ?thesis by (auto simp: admin_get_availability_def split: option.splits)
next
  case (PostAdminAvailability h date slots)
  have "Object_prototype (snd (setOverrides s date slots)) k \<noteq> None"
    using assms Object_assign_keeps [of "Object_prototype s" k]
    by (auto simp: setOverrides_def Let_def split: property.splits bool.splits)
  with PostAdminAvailability assms show ?thesis
    by (auto simp: admin_post_availability_def split: option.splits)
qed

lemma book_builtin_list:
  assumes "f \<in> set object_prototype_keys" and "bookings s f = None"
    and "bookings (snd (book s req)) f \<noteq> None"
  shows "Object_prototype s f \<noteq> None"
proof (rule ccontr)
  assume "\<not> Object_prototype s f \<noteq> None"
  then have n: "Object_prototype s f = None" by simp
  from assms(1,2) n have i: "get_prop (Object_prototype s) (bookings s) f = Inherited"
    by (simp add: get_prop_def)
  have "bookings (snd (book s req)) f = None"
  proof (cases "the (req_date req) = f")
    case True
    with i assms(2) show ?thesis by (simp add: book_def Let_def)
  next
    case False
    from book_effect [of s req] False assms(2) show ?thesis by auto
  qed
  with assms(3) show False by simp
qed

lemma step_builtin_lists:
  assumes "\<forall>f\<in>set object_prototype_keys. bookings s f \<noteq> None \<longrightarrow> Object_prototype s f \<noteq> None"
  shows "\<forall>f\<in>set object_prototype_keys.
           bookings (snd (step env s r)) f \<noteq> None \<longrightarrow> Object_prototype (snd (step env s r)) f \<noteq> None"
proof (intro ballI impI)
  fix f
  assume f: "f \<in> set object_prototype_keys" and b: "bookings (snd (step env s r)) f \<noteq> None"
  have "Object_prototype s f \<noteq> None"
  proof (cases "bookings s f")
    case (Some bs)
    with assms f show ?thesis by auto
  next
    case None
    from None b have "bookings (snd (step env s r)) \<noteq> bookings s" by auto
    with step_bookings [of r env s] have "\<exists>req. r = PostBook req" by blast
    then obtain req where "r = PostBook req" ..
    with f None b show ?thesis using book_builtin_list [of f s req] by simp
  qed
  then show "Object_prototype (snd (step env s r)) f \<noteq> None" by (rule step_keeps_prototype_member)
qed


lemma run_builtin_lists:
  assumes "\<forall>f\<in>set object_prototype_keys. bookings s f \<noteq> None \<longrightarrow> Object_prototype s f \<noteq> None"
  shows "\<forall>f\<in>set object_prototype_keys.
           bookings (run env s rs) f \<noteq> None \<longrightarrow> Object_prototype (run env s rs) f \<noteq> None"
  using assms
proof (induction rs arbitrary: s)
  case Nil
  then show ?case by simp
next
  case (Cons r rs)
  from Cons.prems have "\<forall>f\<in>set object_prototype_keys.
      bookings (snd (step env s r)) f \<noteq> None \<longrightarrow> Object_prototype (snd (step env s r)) f \<noteq> None"
    by (rule step_builtin_lists)
  then show ?case using Cons.IH [of "snd (step env s r)"] by simp
qed

text \<open>
  Hence neither handler reads a slot member of a built-in value: the availability query
  has checked the date's form, and the booking handler reaches the override test only
  when \<^verbatim>\<open>bookings[date]\<close> is no built-in value, and then
  \<^verbatim>\<open>availabilityOverrides[date]\<close> is none either.
\<close>

lemma availability_reads_no_builtin:
  "date_pattern d \<Longrightarrow> get_prop proto obj d \<noteq> Inherited"
  using date_pattern_own [of d] by (simp add: get_prop_def split: option.splits)

lemma book_reads_no_builtin:
  assumes "s = run env init rs"
    and "get_prop (Object_prototype s) (bookings s) d \<noteq> Inherited"
  shows "get_prop (Object_prototype s) (availabilityOverrides s) d \<noteq> Inherited"
proof
  assume i: "get_prop (Object_prototype s) (availabilityOverrides s) d = Inherited"
  then have k: "d \<in> set object_prototype_keys" and p: "Object_prototype s d = None"
    by (auto simp: get_prop_def split: option.splits if_splits)
  have "\<forall>f\<in>set object_prototype_keys. bookings init f \<noteq> None \<longrightarrow> Object_prototype init f \<noteq> None"
    by (simp add: init_def)
  then have "\<forall>f\<in>set object_prototype_keys.
      bookings (run env init rs) f \<noteq> None \<longrightarrow> Object_prototype (run env init rs) f \<noteq> None"
    by (rule run_builtin_lists)
  with assms(1) k p have "bookings s d = None" by auto
  with k p have "get_prop (Object_prototype s) (bookings s) d = Inherited"
    by (simp add: get_prop_def)
  with assms(2) show False by simp
qed

end
